theory Spec2Isabelle
  imports Complex_Main "HOL-Library.AList" "HOL-Library.Char_ord" "HOL-Library.List_Lexorder"
    "HOL-Library.Product_Lexorder"
begin

section \<open>Python values seen by the study\<close>

text \<open>
  An exception object is modelled by the names of the classes in the method resolution
  order of its class (most specific first), its \<open>repr\<close> and its \<open>str\<close>.
  \<open>isinstance(e, C)\<close> holds when \<open>C\<close> is among those classes; an \<open>except\<close> clause
  with a tuple of classes matches when one member of the tuple does.
\<close>

datatype exc = Exc (exc_mro: "string list") (exc_repr: string) (exc_str: string)

definition isinstance :: "exc \<Rightarrow> string \<Rightarrow> bool" where
  "isinstance e c = (c \<in> set (exc_mro e))"

definition isinstance_any :: "exc \<Rightarrow> string list \<Rightarrow> bool" where
  "isinstance_any e cs = list_ex (isinstance e) cs"

definition quoted :: "string \<Rightarrow> string" where
  "quoted s = CHR 0x27 # s @ [CHR 0x27]"

definition ValueError :: "string \<Rightarrow> exc" where
  "ValueError m =
     Exc [''ValueError'', ''Exception'', ''BaseException'']
       (''ValueError('' @ quoted m @ '')'') m"

text \<open>
  A Python float is a finite number, an infinity or NaN. \<open>math.isnan\<close> is true of NaN
  only.
\<close>

datatype pyfloat = Finite real | PosInf | NegInf | NaN

definition isnan :: "pyfloat \<Rightarrow> bool" where
  "isnan x = (x = NaN)"

definition isfinite :: "pyfloat \<Rightarrow> bool" where
  "isfinite x = (case x of Finite r \<Rightarrow> True | _ \<Rightarrow> False)"

text \<open>
  The value an objective returns is an arbitrary Python object. \<open>_run_trial\<close> does two
  things with it: it calls \<open>float(result)\<close>, which returns a float or raises, and it
  formats \<open>repr(result)\<close>. The object is modelled by these two behaviours.
\<close>

record pyobj =
  float_conv :: "exc + pyfloat"
  repr :: string

text \<open>Calling the objective either returns an object or raises an exception.\<close>

datatype outcome = Returned pyobj | Raised exc

type_synonym objective = "nat \<Rightarrow> outcome"

section \<open>Storage\<close>

datatype trial_state = RUNNING | COMPLETE | PRUNED | FAIL

definition str_state :: "trial_state \<Rightarrow> string" where
  "str_state s = (case s of RUNNING \<Rightarrow> ''TrialState.RUNNING''
     | COMPLETE \<Rightarrow> ''TrialState.COMPLETE'' | PRUNED \<Rightarrow> ''TrialState.PRUNED''
     | FAIL \<Rightarrow> ''TrialState.FAIL'')"

record frozen_trial =
  trial_id :: nat
  state :: trial_state
  "value" :: "pyfloat option"
  last_report :: "pyfloat option"
  params :: "(string \<times> string) list"
  system_attrs :: "(string \<times> string) list"

text \<open>The calls the study makes on its storage and on the trial handle, in order.\<close>

datatype call =
    CreateNewTrialId nat
  | SetTrialState nat trial_state
  | SetTrialSystemAttr nat string string
  | Report nat pyfloat
  | GetBestTrial
  | RemoveSession

datatype log_entry =
    LogInfo string
  | LogWarning string
  | LogFinished pyfloat pyfloat "(string \<times> string) list"

text \<open>
  The world a study acts on: the trials held by the storage, the sequence of calls made
  on the storage so far (oldest first) and the lines written to the logger.
\<close>

record world =
  trials :: "frozen_trial list"
  calls :: "call list"
  logs :: "log_entry list"

definition new_trial :: "nat \<Rightarrow> frozen_trial" where
  "new_trial i = \<lparr>trial_id = i, state = RUNNING, value = None, last_report = None,
     params = [], system_attrs = []\<rparr>"

definition upd_trial :: "nat \<Rightarrow> (frozen_trial \<Rightarrow> frozen_trial) \<Rightarrow> world \<Rightarrow> world" where
  "upd_trial i f w =
     (if i < length (trials w) then w\<lparr>trials := (trials w)[i := f (trials w ! i)]\<rparr> else w)"

text \<open>
  Modelled from the spec: the storage backend (\<open>optuna.storages\<close>) is not part of the
  source under study. The spec asks of it atomic allocation of trial identifiers in
  increasing order, persistence of state transitions and of system attributes, and a
  best-trial query by minimum recorded value. The model is a list of trial records in
  which the trial with identifier \<open>i\<close> is the \<open>i\<close>-th element; a call that names an
  identifier never allocated leaves the trials unchanged.
\<close>

definition create_new_trial_id :: "world \<Rightarrow> nat \<times> world" where
  "create_new_trial_id w =
     (let i = length (trials w)
      in (i, w\<lparr>trials := trials w @ [new_trial i], calls := calls w @ [CreateNewTrialId i]\<rparr>))"

definition set_trial_state :: "nat \<Rightarrow> trial_state \<Rightarrow> world \<Rightarrow> world" where
  "set_trial_state i s w =
     upd_trial i (\<lambda>t. t\<lparr>state := s\<rparr>) (w\<lparr>calls := calls w @ [SetTrialState i s]\<rparr>)"

definition set_trial_system_attr :: "nat \<Rightarrow> string \<Rightarrow> string \<Rightarrow> world \<Rightarrow> world" where
  "set_trial_system_attr i k v w =
     upd_trial i (\<lambda>t. t\<lparr>system_attrs := AList.update k v (system_attrs t)\<rparr>)
       (w\<lparr>calls := calls w @ [SetTrialSystemAttr i k v]\<rparr>)"

text \<open>
  Modelled from the spec: the runtime trial handle (\<open>optuna.trial.Trial\<close>) is not part
  of the source under study. Reporting the final value on the handle stores it as the
  trial's value and as its last intermediate report.
\<close>

definition report :: "nat \<Rightarrow> pyfloat \<Rightarrow> world \<Rightarrow> world" where
  "report i v w =
     upd_trial i (\<lambda>t. t\<lparr>value := Some v, last_report := Some v\<rparr>)
       (w\<lparr>calls := calls w @ [Report i v]\<rparr>)"

text \<open>
  Order of floats used by the best-trial query: \<open>float_less a b\<close> is Python's \<open>a < b\<close>,
  false whenever an operand is NaN.
\<close>

fun float_less :: "pyfloat \<Rightarrow> pyfloat \<Rightarrow> bool" where
  "float_less NaN _ = False"
| "float_less _ NaN = False"
| "float_less (Finite a) (Finite b) = (a < b)"
| "float_less NegInf NegInf = False"
| "float_less NegInf _ = True"
| "float_less _ NegInf = False"
| "float_less PosInf _ = False"
| "float_less _ PosInf = True"

definition value_less :: "frozen_trial \<Rightarrow> frozen_trial \<Rightarrow> bool" where
  "value_less a b = (case (value a, value b) of
       (Some x, Some y) \<Rightarrow> float_less x y
     | _ \<Rightarrow> False)"

text \<open>
  A scan for the minimum that keeps the earliest of the minimal elements, as Python's
  \<open>min\<close> does.
\<close>

fun min_by_value :: "frozen_trial \<Rightarrow> frozen_trial list \<Rightarrow> frozen_trial" where
  "min_by_value b [] = b"
| "min_by_value b (t # ts) = min_by_value (if value_less t b then t else b) ts"

definition no_completed_trials :: exc where
  "no_completed_trials = ValueError ''No trials are completed yet.''"

text \<open>
  Modelled from the spec: the storage's best-trial query returns the completed trial
  of minimum recorded value and raises the error that no trials are completed when
  there is none.
\<close>

definition get_best_trial :: "world \<Rightarrow> (exc + frozen_trial) \<times> world" where
  "get_best_trial w =
     (let w' = w\<lparr>calls := calls w @ [GetBestTrial]\<rparr>
      in case filter (\<lambda>t. state t = COMPLETE) (trials w) of
           [] \<Rightarrow> (Inl no_completed_trials, w')
         | t # ts \<Rightarrow> (Inr (min_by_value t ts), w'))"

section \<open>The study: accessors\<close>

text \<open>
  \<open>Study.best_trial\<close>, \<open>Study.best_value\<close> and \<open>Study.best_params\<close>. Each returns
  its result, or the exception it raises, together with the world after the storage
  call.
\<close>

definition best_trial :: "world \<Rightarrow> (exc + frozen_trial) \<times> world" where
  "best_trial w = get_best_trial w"

definition best_params :: "world \<Rightarrow> (exc + (string \<times> string) list) \<times> world" where
  "best_params w =
     (case best_trial w of
        (Inl e, w') \<Rightarrow> (Inl e, w')
      | (Inr t, w') \<Rightarrow> (Inr (params t), w'))"

definition best_value :: "world \<Rightarrow> (exc + pyfloat) \<times> world" where
  "best_value w =
     (case best_trial w of
        (Inl e, w') \<Rightarrow> (Inl e, w')
      | (Inr t, w') \<Rightarrow>
          (case value t of
             None \<Rightarrow> (Inl (ValueError ''No trials are completed yet.''), w')
           | Some v \<Rightarrow> (Inr v, w')))"

section \<open>The trial runner\<close>

definition logger_info :: "string \<Rightarrow> world \<Rightarrow> world" where
  "logger_info m w = w\<lparr>logs := logs w @ [LogInfo m]\<rparr>"

definition logger_warning :: "string \<Rightarrow> world \<Rightarrow> world" where
  "logger_warning m w = w\<lparr>logs := logs w @ [LogWarning m]\<rparr>"

text \<open>
  \<open>Study._log_completed_trial\<close>: the arguments of the format call are evaluated left to
  right, so the best value is queried before the best parameters, and an exception of
  either query leaves the method before the line is logged.
\<close>

definition log_completed_trial :: "pyfloat \<Rightarrow> world \<Rightarrow> (exc + unit) \<times> world" where
  "log_completed_trial v w =
     (case best_value w of
        (Inl e, w1) \<Rightarrow> (Inl e, w1)
      | (Inr bv, w1) \<Rightarrow>
          (case best_params w1 of
             (Inl e, w2) \<Rightarrow> (Inl e, w2)
           | (Inr bp, w2) \<Rightarrow> (Inr (), w2\<lparr>logs := logs w2 @ [LogFinished v bv bp]\<rparr>)))"

definition msg_pruned :: "exc \<Rightarrow> string" where
  "msg_pruned e = ''Setting trial status as '' @ str_state PRUNED @ ''. '' @ exc_str e"

definition msg_caught :: "exc \<Rightarrow> string" where
  "msg_caught e = ''Setting trial status as '' @ str_state FAIL
     @ '' because of the following error: '' @ exc_repr e"

definition msg_not_float :: "pyobj \<Rightarrow> string" where
  "msg_not_float r = ''Setting trial status as '' @ str_state FAIL
     @ '' because the returned value from the objective function cannot be casted to float. ''
     @ ''Returned value is: '' @ repr r"

definition msg_nan :: string where
  "msg_nan = ''Setting trial status as '' @ str_state FAIL
     @ '' because the objective function returned '' @ ''nan'' @ ''.''"

text \<open>
  \<open>Study._run_trial\<close>. The result is \<open>Inr\<close> of the trial handle (identified with the
  trial identifier it is bound to) when the method returns and \<open>Inl\<close> of the exception
  when it raises; the world is the one left behind in either case. The \<open>except\<close>
  clauses are tried in the order of the source: the pruning signal first, the catch
  filter second. The conversion \<open>float(result)\<close> is guarded by the classes
  \<open>ValueError\<close> and \<open>TypeError\<close> only.
\<close>

definition run_trial :: "objective \<Rightarrow> string list \<Rightarrow> world \<Rightarrow> (exc + nat) \<times> world" where
  "run_trial func catch w =
     (let (trial_id, w0) = create_new_trial_id w
      in case func trial_id of
           Raised e \<Rightarrow>
             if isinstance e ''TrialPruned'' then
               (let message = msg_pruned e;
                    w1 = logger_info message w0;
                    w2 = set_trial_state trial_id PRUNED w1
                in (Inr trial_id, w2))
             else if isinstance_any e catch then
               (let message = msg_caught e;
                    w1 = logger_warning message w0;
                    w2 = set_trial_state trial_id FAIL w1;
                    w3 = set_trial_system_attr trial_id ''fail_reason'' message w2
                in (Inr trial_id, w3))
             else (Inl e, w0)
         | Returned result \<Rightarrow>
             (case float_conv result of
                Inl e \<Rightarrow>
                  if isinstance_any e [''ValueError'', ''TypeError''] then
                    (let message = msg_not_float result;
                         w1 = logger_warning message w0;
                         w2 = set_trial_state trial_id FAIL w1;
                         w3 = set_trial_system_attr trial_id ''fail_reason'' message w2
                     in (Inr trial_id, w3))
                  else (Inl e, w0)
              | Inr r \<Rightarrow>
                  if isnan r then
                    (let message = msg_nan;
                         w1 = logger_warning message w0;
                         w2 = set_trial_state trial_id FAIL w1;
                         w3 = set_trial_system_attr trial_id ''fail_reason'' message w2
                     in (Inr trial_id, w3))
                  else
                    (let w1 = report trial_id r w0;
                         w2 = set_trial_state trial_id COMPLETE w1
                     in case log_completed_trial r w2 of
                          (Inl e, w3) \<Rightarrow> (Inl e, w3)
                        | (Inr u, w3) \<Rightarrow> (Inr trial_id, w3))))"

section \<open>Construction of a study\<close>

datatype study_task = MINIMIZE | MAXIMIZE

record study =
  study_name :: string
  study_id :: nat
  direction :: study_task

datatype study_call = GetStudyIdFromName string | SetStudyTask nat study_task

text \<open>
  \<open>Study.__init__\<close>. The lookup of the study identifier belongs to the storage, which
  is not part of the source under study: its result, an identifier or an exception, is
  the parameter \<open>lookup\<close>. The result is the study or the exception raised, with the
  calls made on the storage.
\<close>

definition direction_error :: exc where
  "direction_error = ValueError (''Please set either '' @ quoted ''minimize'' @ '' or ''
     @ quoted ''maximize'' @ '' to direction.'')"

definition maximize_error :: "string \<Rightarrow> exc" where
  "maximize_error name = ValueError (''Optimization direction of study '' @ name
     @ '' is set to `MAXIMIZE`. Currently, Optuna supports `MINIMIZE` only.'')"

definition study_init ::
  "(string \<Rightarrow> exc + nat) \<Rightarrow> string \<Rightarrow> string \<Rightarrow> (exc + study) \<times> study_call list" where
  "study_init lookup name dir =
     (case lookup name of
        Inl e \<Rightarrow> (Inl e, [GetStudyIdFromName name])
      | Inr sid \<Rightarrow>
          (case (if dir = ''minimize'' then Inr MINIMIZE
                 else if dir = ''maximize'' then Inr MAXIMIZE
                 else Inl direction_error) of
             Inl e \<Rightarrow> (Inl e, [GetStudyIdFromName name])
           | Inr d \<Rightarrow>
               if d = MAXIMIZE then (Inl (maximize_error name), [GetStudyIdFromName name])
               else (Inr \<lparr>study_name = name, study_id = sid, direction = d\<rparr>,
                     [GetStudyIdFromName name, SetStudyTask sid d])))"

section \<open>Sequential scheduling\<close>

text \<open>
  \<open>Study._optimize_sequential\<close>. The wall clock is the function \<open>now\<close>: \<open>now k\<close> is
  what the \<open>k\<close>-th call of \<open>datetime.datetime.now()\<close> returns, in seconds, and the
  loop carries the number of calls made so far. The loop need not end (no limit, no
  timeout), so it is a partial function: \<open>None\<close> stands for a loop that runs forever.
  When it ends, the result is \<open>Inr ()\<close> for a normal return or \<open>Inl\<close> of the exception
  that left \<open>_run_trial\<close>, with the number of clock readings and the world.
\<close>

partial_function (option) optimize_sequential_loop ::
  "objective \<Rightarrow> int option \<Rightarrow> real option \<Rightarrow> string list \<Rightarrow> (nat \<Rightarrow> real) \<Rightarrow> real
    \<Rightarrow> int \<Rightarrow> nat \<Rightarrow> world \<Rightarrow> ((exc + unit) \<times> nat \<times> world) option" where
  "optimize_sequential_loop func n_trials timeout catch now time_start i_trial k w =
     (if n_trials \<noteq> None \<and> i_trial \<ge> the n_trials then Some (Inr (), k, w)
      else
        let i_trial' = (if n_trials \<noteq> None then i_trial + 1 else i_trial) in
        if timeout \<noteq> None \<and> now k - time_start \<ge> the timeout then Some (Inr (), Suc k, w)
        else
          let k' = (if timeout \<noteq> None then Suc k else k) in
          case run_trial func catch w of
            (Inl e, w') \<Rightarrow> Some (Inl e, k', w')
          | (Inr t, w') \<Rightarrow>
              optimize_sequential_loop func n_trials timeout catch now time_start i_trial' k' w')"

declare optimize_sequential_loop.simps [code]

definition optimize_sequential ::
  "objective \<Rightarrow> int option \<Rightarrow> real option \<Rightarrow> string list \<Rightarrow> (nat \<Rightarrow> real) \<Rightarrow> nat \<Rightarrow> world
    \<Rightarrow> ((exc + unit) \<times> nat \<times> world) option" where
  "optimize_sequential func n_trials timeout catch now k w =
     optimize_sequential_loop func n_trials timeout catch now (now k) 0 (Suc k) w"

section \<open>Parallel scheduling\<close>

text \<open>
  \<open>Study._optimize_parallel\<close> runs a coordinator (the calling thread) and a pool of
  worker threads that share a bounded queue of tokens: \<open>True\<close> for "run one more
  trial", \<open>False\<close> for "quit". The threads are modelled by a transition system. A
  state holds the queue (oldest token first), the coordinator's counter and position
  in its code, and the status of each worker.
\<close>

datatype coord_pc =
    Admitting
  | Stopping nat
  | Draining
  | Done "exc + unit"

text \<open>
  A worker is \<open>Waiting\<close> in \<open>que.get()\<close>; \<open>Running\<close> when it has taken a \<open>True\<close>
  token and is in \<open>_run_trial\<close>; \<open>Leaving\<close> when it has taken a \<open>False\<close> token and has
  yet to release its storage session; \<open>Exited\<close> when \<open>func_child_thread\<close> has
  returned; \<open>Died\<close> when \<open>_run_trial\<close> raised, which ends \<open>func_child_thread\<close> with
  that exception.
\<close>

datatype wstatus = Waiting | Running | Leaving | Exited | Died exc

record pstate =
  n_jobs :: int
  que :: "bool list"
  n_enqueued_trials :: int
  coord :: coord_pc
  workers :: "wstatus list"
  start_datetime :: real
  clock_reads :: nat
  sleeps :: nat
  pworld :: world

datatype start = NoWork | PoolError exc | Started pstate

text \<open>
  The part of \<open>_optimize_parallel\<close> that runs before any thread is started: the clock
  is read, the worker count is resolved (\<open>-1\<close> stands for the number of processing
  units \<open>cpu_count\<close>, and a limit on the trials caps it), a limit of zero returns at
  once, and otherwise the pool and the queue are created and the queue is seeded with
  one \<open>True\<close> per worker. \<open>ThreadPool\<close> raises a \<open>ValueError\<close> when asked for fewer than
  one thread.
\<close>

definition optimize_parallel_start ::
  "int \<Rightarrow> int option \<Rightarrow> int \<Rightarrow> (nat \<Rightarrow> real) \<Rightarrow> nat \<Rightarrow> world \<Rightarrow> start" where
  "optimize_parallel_start cpu_count n_trials njobs now k w =
     (let n1 = (if njobs = - 1 then cpu_count else njobs);
          n2 = (case n_trials of None \<Rightarrow> n1 | Some n \<Rightarrow> min n1 n)
      in if n_trials = Some 0 then NoWork
         else if n2 < 1 then PoolError (ValueError ''Number of processes must be at least 1'')
         else Started \<lparr>n_jobs = n2, que = replicate (nat n2) True, n_enqueued_trials = n2,
                coord = Admitting, workers = replicate (nat n2) Waiting,
                start_datetime = now k, clock_reads = Suc k, sleeps = 0, pworld = w\<rparr>)"

definition remove_session :: "world \<Rightarrow> world" where
  "remove_session w = w\<lparr>calls := calls w @ [RemoveSession]\<rparr>"

text \<open>
  One step of worker \<open>i\<close>, in the body of \<open>func_child_thread\<close>. Taking a token and
  acting on it are separate steps, so that other threads can step in between.
  \<open>que.get()\<close> blocks on an empty queue (no step) and otherwise takes the oldest
  token. A worker that took \<open>True\<close> runs one trial and waits again, unless the trial
  raises, which ends the worker. A worker that took \<open>False\<close> releases its storage
  session and exits.
\<close>

definition worker_step :: "objective \<Rightarrow> string list \<Rightarrow> nat \<Rightarrow> pstate \<Rightarrow> pstate option" where
  "worker_step func catch i s =
     (if i < length (workers s) then
        (case workers s ! i of
           Waiting \<Rightarrow>
             (case que s of
                [] \<Rightarrow> None
              | True # q \<Rightarrow> Some (s\<lparr>que := q, workers := (workers s)[i := Running]\<rparr>)
              | False # q \<Rightarrow> Some (s\<lparr>que := q, workers := (workers s)[i := Leaving]\<rparr>))
         | Running \<Rightarrow>
             (case run_trial func catch (pworld s) of
                (Inr t, w') \<Rightarrow> Some (s\<lparr>workers := (workers s)[i := Waiting], pworld := w'\<rparr>)
              | (Inl e, w') \<Rightarrow> Some (s\<lparr>workers := (workers s)[i := Died e], pworld := w'\<rparr>))
         | Leaving \<Rightarrow>
             Some (s\<lparr>workers := (workers s)[i := Exited],
                     pworld := remove_session (pworld s)\<rparr>)
         | Exited \<Rightarrow> None
         | Died e \<Rightarrow> None)
      else None)"

text \<open>
  Consuming the iterator of \<open>pool.imap\<close> takes the workers' results in order: it
  waits for a worker that is still running, passes a worker that returned, and raises
  the exception of the first worker that died.
\<close>

fun drain :: "wstatus list \<Rightarrow> (exc + unit) option" where
  "drain [] = Some (Inr ())"
| "drain (Waiting # ws) = None"
| "drain (Running # ws) = None"
| "drain (Leaving # ws) = None"
| "drain (Exited # ws) = drain ws"
| "drain (Died e # ws) = Some (Inl e)"

text \<open>
  One step of the coordinator. While admitting, one step is one iteration of the
  \<open>while True\<close> loop: the timeout check (strictly greater), the limit check, then
  \<open>put_nowait(True)\<close>, which either succeeds or finds the queue full and sleeps.
  \<open>Stopping m\<close> is the loop that puts the \<open>False\<close> tokens with \<open>m\<close> of them still to
  put; \<open>put\<close> blocks while the queue is full (no step).
\<close>

definition coord_step ::
  "int option \<Rightarrow> real option \<Rightarrow> (nat \<Rightarrow> real) \<Rightarrow> pstate \<Rightarrow> pstate option" where
  "coord_step n_trials timeout now s =
     (case coord s of
        Admitting \<Rightarrow>
          if timeout \<noteq> None \<and> now (clock_reads s) - start_datetime s > the timeout then
            Some (s\<lparr>clock_reads := Suc (clock_reads s), coord := Stopping (nat (n_jobs s))\<rparr>)
          else
            let s1 = (if timeout \<noteq> None then s\<lparr>clock_reads := Suc (clock_reads s)\<rparr> else s) in
            if n_trials \<noteq> None \<and> n_enqueued_trials s1 \<ge> the n_trials then
              Some (s1\<lparr>coord := Stopping (nat (n_jobs s1))\<rparr>)
            else if int (length (que s1)) < n_jobs s1 then
              Some (s1\<lparr>que := que s1 @ [True], n_enqueued_trials := n_enqueued_trials s1 + 1\<rparr>)
            else Some (s1\<lparr>sleeps := Suc (sleeps s1)\<rparr>)
      | Stopping m \<Rightarrow>
          if m = 0 then Some (s\<lparr>coord := Draining\<rparr>)
          else if int (length (que s)) < n_jobs s then
            Some (s\<lparr>que := que s @ [False], coord := Stopping (m - 1)\<rparr>)
          else None
      | Draining \<Rightarrow>
          (case drain (workers s) of
             None \<Rightarrow> None
           | Some r \<Rightarrow> Some (s\<lparr>coord := Done r\<rparr>))
      | Done r \<Rightarrow> None)"

datatype action = Coord | Worker nat

definition pstep ::
  "objective \<Rightarrow> int option \<Rightarrow> real option \<Rightarrow> string list \<Rightarrow> (nat \<Rightarrow> real) \<Rightarrow> action \<Rightarrow> pstate
    \<Rightarrow> pstate option" where
  "pstep func n_trials timeout catch now a s =
     (case a of
        Coord \<Rightarrow> coord_step n_trials timeout now s
      | Worker i \<Rightarrow> worker_step func catch i s)"

text \<open>
  A schedule is the order in which the threads take their steps. \<open>exec\<close> runs a
  schedule and is \<open>None\<close> when the schedule asks a blocked thread to step.
\<close>

fun exec ::
  "objective \<Rightarrow> int option \<Rightarrow> real option \<Rightarrow> string list \<Rightarrow> (nat \<Rightarrow> real) \<Rightarrow> action list
    \<Rightarrow> pstate \<Rightarrow> pstate option" where
  "exec func n_trials timeout catch now [] s = Some s"
| "exec func n_trials timeout catch now (a # as) s =
     (case pstep func n_trials timeout catch now a s of
        None \<Rightarrow> None
      | Some s' \<Rightarrow> exec func n_trials timeout catch now as s')"


text \<open>
  \<open>_optimize_parallel\<close> under a schedule: the result and the world when the
  coordinator has left the method, \<open>None\<close> when the schedule does not get it there.
\<close>

definition optimize_parallel ::
  "int \<Rightarrow> objective \<Rightarrow> int option \<Rightarrow> real option \<Rightarrow> int \<Rightarrow> string list \<Rightarrow> (nat \<Rightarrow> real) \<Rightarrow> nat
    \<Rightarrow> action list \<Rightarrow> world \<Rightarrow> ((exc + unit) \<times> world) option" where
  "optimize_parallel cpu_count func n_trials timeout njobs catch now k sched w =
     (case optimize_parallel_start cpu_count n_trials njobs now k w of
        NoWork \<Rightarrow> Some (Inr (), w)
      | PoolError e \<Rightarrow> Some (Inl e, w)
      | Started s \<Rightarrow>
          (case exec func n_trials timeout catch now sched s of
             None \<Rightarrow> None
           | Some s' \<Rightarrow> (case coord s' of Done r \<Rightarrow> Some (r, pworld s') | _ \<Rightarrow> None)))"

text \<open>\<open>Study.optimize\<close>: one job runs sequentially, anything else in parallel.\<close>

definition optimize ::
  "int \<Rightarrow> objective \<Rightarrow> int option \<Rightarrow> real option \<Rightarrow> int \<Rightarrow> string list \<Rightarrow> (nat \<Rightarrow> real) \<Rightarrow> nat
    \<Rightarrow> action list \<Rightarrow> world \<Rightarrow> ((exc + unit) \<times> world) option" where
  "optimize cpu_count func n_trials timeout njobs catch now k sched w =
     (if njobs = 1 then
        map_option (\<lambda>(r, k', w'). (r, w')) (optimize_sequential func n_trials timeout catch now k w)
      else optimize_parallel cpu_count func n_trials timeout njobs catch now k sched w)"

section \<open>Tabular export\<close>

text \<open>
  \<open>Study.trials_dataframe\<close>. A trial arrives as the ordered dictionary that
  \<open>_asdict()\<close> makes of it: a list of fields, each with a value that is a dictionary
  or anything else. The names of the fields of the trial record in their order of
  declaration (\<open>FrozenTrial._fields\<close>) and the internal fields
  (\<open>FrozenTrial.internal_fields\<close>) are declared outside the source under study and are
  parameters. Inner keys are strings (parameter and attribute names) or integers
  (steps of intermediate values); the empty string marks a field without nesting.
  Keys are ordered as Python orders them: integers by value, strings
  lexicographically, and an integer before a string.

  The method ends by handing the records and the columns to \<open>pandas\<close>; the model
  returns the two.
\<close>

datatype key = IntKey int | StrKey string

instantiation key :: linorder
begin

fun less_eq_key :: "key \<Rightarrow> key \<Rightarrow> bool" where
  "less_eq_key (IntKey a) (IntKey b) = (a \<le> b)"
| "less_eq_key (IntKey a) (StrKey b) = True"
| "less_eq_key (StrKey a) (IntKey b) = False"
| "less_eq_key (StrKey a) (StrKey b) = (a \<le> b)"

definition less_key :: "key \<Rightarrow> key \<Rightarrow> bool" where
  "less_key x y = (x \<le> y \<and> \<not> y \<le> x)"

instance
proof
  fix x y z :: key
  show "(x < y) = (x \<le> y \<and> \<not> y \<le> x)" by (simp add: less_key_def)
  show "x \<le> x" by (cases x) simp_all
  show "x \<le> y \<Longrightarrow> y \<le> z \<Longrightarrow> x \<le> z" by (cases x; cases y; cases z) auto
  show "x \<le> y \<Longrightarrow> y \<le> x \<Longrightarrow> x = y" by (cases x; cases y) auto
  show "x \<le> y \<or> y \<le> x" by (cases x; cases y) auto
qed

end

datatype 'a field_value = Scalar 'a | Dict "(key \<times> 'a) list"

type_synonym column = "string \<times> key"

definition non_nested_field :: key where
  "non_nested_field = StrKey ''''"

definition add_inner ::
  "string \<Rightarrow> (column \<rightharpoonup> 'a) \<times> (string \<Rightarrow> column set) \<Rightarrow> key \<times> 'a
    \<Rightarrow> (column \<rightharpoonup> 'a) \<times> (string \<Rightarrow> column set)" where
  "add_inner field ra kv =
     (case ra of (record, column_agg) \<Rightarrow>
        (case kv of (in_field, in_value) \<Rightarrow>
           (record((field, in_field) \<mapsto> in_value),
            column_agg(field := insert (field, in_field) (column_agg field)))))"

definition add_field ::
  "string list \<Rightarrow> (column \<rightharpoonup> 'a) \<times> (string \<Rightarrow> column set) \<Rightarrow> string \<times> 'a field_value
    \<Rightarrow> (column \<rightharpoonup> 'a) \<times> (string \<Rightarrow> column set)" where
  "add_field internal_fields ra fv =
     (case ra of (record, column_agg) \<Rightarrow>
        (case fv of (field, v) \<Rightarrow>
           if field \<in> set internal_fields then (record, column_agg)
           else (case v of
                   Dict d \<Rightarrow> foldl (add_inner field) (record, column_agg) d
                 | Scalar x \<Rightarrow>
                     (record((field, non_nested_field) \<mapsto> x),
                      column_agg(field := insert (field, non_nested_field) (column_agg field))))))"

definition add_trial ::
  "string list \<Rightarrow> (column \<rightharpoonup> 'a) list \<times> (string \<Rightarrow> column set)
    \<Rightarrow> (string \<times> 'a field_value) list \<Rightarrow> (column \<rightharpoonup> 'a) list \<times> (string \<Rightarrow> column set)" where
  "add_trial internal_fields ra trial_dict =
     (case ra of (records, column_agg) \<Rightarrow>
        (case foldl (add_field internal_fields) (Map.empty, column_agg) trial_dict of
           (record, column_agg') \<Rightarrow> (records @ [record], column_agg')))"

definition trials_dataframe ::
  "string list \<Rightarrow> string list \<Rightarrow> (string \<times> 'a field_value) list list
    \<Rightarrow> (column \<rightharpoonup> 'a) list \<times> column list" where
  "trials_dataframe field_names internal_fields trial_dicts =
     (case foldl (add_trial internal_fields) ([], \<lambda>k. {}) trial_dicts of
        (records, column_agg) \<Rightarrow>
          (records, concat (map (\<lambda>k. sorted_list_of_set (column_agg k)) field_names)))"

section \<open>Observations\<close>

text \<open>What the storage has recorded for the trial with a given identifier.\<close>

definition recorded_state :: "world \<Rightarrow> nat \<Rightarrow> trial_state option" where
  "recorded_state w i = (if i < length (trials w) then Some (state (trials w ! i)) else None)"

definition recorded_value :: "world \<Rightarrow> nat \<Rightarrow> pyfloat option" where
  "recorded_value w i = (if i < length (trials w) then value (trials w ! i) else None)"

definition empty_world :: world where
  "empty_world = \<lparr>trials = [], calls = [], logs = []\<rparr>"

text \<open>
  The world after a trial that was recorded as failed with reason \<open>m\<close>: the storage
  calls are the allocation, the state transition and the attribute, in this order.
\<close>

definition fail_world :: "string \<Rightarrow> world \<Rightarrow> world" where
  "fail_world m w =
     (let i = length (trials w)
      in w\<lparr>trials := trials w @
             [(new_trial i)\<lparr>state := FAIL, system_attrs := [(''fail_reason'', m)]\<rparr>],
           calls := calls w @ [CreateNewTrialId i, SetTrialState i FAIL,
             SetTrialSystemAttr i ''fail_reason'' m],
           logs := logs w @ [LogWarning m]\<rparr>)"

text \<open>
  Whether, in a sequence of storage calls, the failure reason of trial \<open>i\<close> is set
  at some point after the trial's state was set to \<open>FAIL\<close>.
\<close>

definition is_fail_reason :: "nat \<Rightarrow> call \<Rightarrow> bool" where
  "is_fail_reason i c =
     (case c of SetTrialSystemAttr j k v \<Rightarrow> j = i \<and> k = ''fail_reason'' | _ \<Rightarrow> False)"

fun reason_after_fail :: "nat \<Rightarrow> call list \<Rightarrow> bool" where
  "reason_after_fail i [] = False"
| "reason_after_fail i (c # cs) =
     ((c = SetTrialState i FAIL \<and> list_ex (is_fail_reason i) cs) \<or> reason_after_fail i cs)"

section \<open>Sample inputs\<close>

text \<open>
  Exceptions, returned objects, objectives and a clock used to run the model on
  concrete inputs. \<open>huge_int\<close> is the integer \<open>10 ** 400\<close>, for which \<open>float\<close> raises
  \<open>OverflowError\<close>.
\<close>

definition pruned_signal :: exc where
  "pruned_signal = Exc [''TrialPruned'', ''Exception'', ''BaseException''] ''TrialPruned()'' []"

definition overflow_error :: exc where
  "overflow_error =
     Exc [''OverflowError'', ''ArithmeticError'', ''Exception'', ''BaseException'']
       (''OverflowError('' @ quoted ''int too large to convert to float'' @ '')'')
       ''int too large to convert to float''"

definition keyboard_interrupt :: exc where
  "keyboard_interrupt = Exc [''KeyboardInterrupt'', ''BaseException''] ''KeyboardInterrupt()'' []"

definition py_float :: "pyfloat \<Rightarrow> string \<Rightarrow> pyobj" where
  "py_float x r = \<lparr>float_conv = Inr x, repr = r\<rparr>"

definition huge_int :: pyobj where
  "huge_int = \<lparr>float_conv = Inl overflow_error, repr = CHR ''1'' # replicate 400 CHR ''0''\<rparr>"

definition always :: "outcome \<Rightarrow> objective" where
  "always x = (\<lambda>i. x)"

definition ticking :: "nat \<Rightarrow> real" where
  "ticking k = real k"

definition known_study :: "string \<Rightarrow> exc + nat" where
  "known_study name = Inr 0"

definition failed_trial :: frozen_trial where
  "failed_trial = (new_trial 0)\<lparr>state := FAIL\<rparr>"

text \<open>
  The state that \<open>_optimize_parallel\<close> reaches under a schedule, when the pool was
  started and every thread the schedule names could step.
\<close>

definition parallel_state ::
  "int \<Rightarrow> objective \<Rightarrow> int option \<Rightarrow> real option \<Rightarrow> int \<Rightarrow> string list \<Rightarrow> (nat \<Rightarrow> real) \<Rightarrow> nat
    \<Rightarrow> action list \<Rightarrow> world \<Rightarrow> pstate option" where
  "parallel_state cpu_count func n_trials timeout njobs catch now k sched w =
     (case optimize_parallel_start cpu_count n_trials njobs now k w of
        Started s \<Rightarrow> exec func n_trials timeout catch now sched s
      | _ \<Rightarrow> None)"


text \<open>
  Counts over the workers: those that are in \<open>_run_trial\<close>, those that have taken a
  \<open>False\<close> token, and whether a worker has died.
\<close>

definition in_trial :: "wstatus list \<Rightarrow> nat" where
  "in_trial ws = length (filter (\<lambda>x. x = Running) ws)"








definition key_error :: exc where
  "key_error = Exc [''KeyError'', ''LookupError'', ''Exception'', ''BaseException'']
     ''KeyError()'' []"

definition first_fails :: objective where
  "first_fails i = (if i = 0 then Raised key_error else Raised pruned_signal)"

definition early_raise_run :: "pstate option" where
  "early_raise_run = parallel_state 4 first_fails (Some 3) None 2 [''ValueError''] ticking 0
     [Worker 0, Worker 0, Coord, Coord, Worker 1, Worker 1, Coord, Worker 1, Coord, Coord, Coord]
     empty_world"

text \<open>
  The table described in words, to compare \<open>trials_dataframe\<close> with. A field that is
  a dictionary contributes one column for each of its keys and any other field the
  column with the empty inner key; internal fields contribute nothing.
  \<open>trial_columns\<close> are the columns of one trial, \<open>group_columns\<close> the columns of all
  trials under one outer field name.
\<close>

fun inner_keys :: "'a field_value \<Rightarrow> key set" where
  "inner_keys (Scalar x) = {non_nested_field}"
| "inner_keys (Dict d) = fst ` set d"

definition field_columns :: "string list \<Rightarrow> string \<times> 'a field_value \<Rightarrow> column set" where
  "field_columns internal_fields fv =
     (if fst fv \<in> set internal_fields then {} else Pair (fst fv) ` inner_keys (snd fv))"

definition trial_columns :: "string list \<Rightarrow> (string \<times> 'a field_value) list \<Rightarrow> column set" where
  "trial_columns internal_fields t = \<Union> (field_columns internal_fields ` set t)"

definition group_columns ::
  "string list \<Rightarrow> (string \<times> 'a field_value) list list \<Rightarrow> string \<Rightarrow> column set" where
  "group_columns internal_fields ts k =
     Set.filter (\<lambda>c. fst c = k) (\<Union> (trial_columns internal_fields ` set ts))"

text \<open>
  A trial of a study: the fields of a trial record in their order of declaration,
  with two parameters and two intermediate values.
\<close>

definition sample_fields :: "string list" where
  "sample_fields = [''trial_id'', ''state'', ''value'', ''params'', ''intermediate_values'',
     ''params_in_internal_repr'']"

definition sample_trial :: "(string \<times> string field_value) list" where
  "sample_trial =
     [(''trial_id'', Scalar ''0''), (''state'', Scalar ''COMPLETE''), (''value'', Scalar ''0.7''),
      (''params'', Dict [(StrKey ''y'', ''2''), (StrKey ''x'', ''1'')]),
      (''intermediate_values'', Dict [(IntKey 10, ''0.7''), (IntKey 9, ''0.8'')]),
      (''params_in_internal_repr'', Dict [(StrKey ''y'', ''2.0''), (StrKey ''x'', ''1.0'')])]"

section \<open>Outcome of one trial\<close>

text \<open>
  The paths of \<open>run_trial\<close>, one lemma for each: what it returns or raises and the
  world it leaves.
\<close>

lemmas storage_defs = create_new_trial_id_def set_trial_state_def set_trial_system_attr_def
  report_def upd_trial_def logger_info_def logger_warning_def

lemma trials_log_completed_trial: "trials (snd (log_completed_trial v w)) = trials w"
  by (simp add: log_completed_trial_def best_value_def best_params_def best_trial_def
      get_best_trial_def Let_def split: list.splits option.splits sum.splits prod.splits)

lemma run_pruned:
  assumes "func (length (trials w)) = Raised e" and "isinstance e ''TrialPruned''"
  shows "run_trial func catch w =
    (Inr (length (trials w)),
     w\<lparr>trials := trials w @ [(new_trial (length (trials w)))\<lparr>state := PRUNED\<rparr>],
       calls := calls w @ [CreateNewTrialId (length (trials w)),
         SetTrialState (length (trials w)) PRUNED],
       logs := logs w @ [LogInfo (msg_pruned e)]\<rparr>)"
  using assms by (simp add: run_trial_def storage_defs Let_def nth_append)

lemma run_caught:
  assumes "func (length (trials w)) = Raised e" and "\<not> isinstance e ''TrialPruned''"
    and "isinstance_any e catch"
  shows "run_trial func catch w = (Inr (length (trials w)), fail_world (msg_caught e) w)"
  using assms
  by (simp add: run_trial_def storage_defs Let_def nth_append fail_world_def new_trial_def)

lemma run_fatal:
  assumes "func (length (trials w)) = Raised e" and "\<not> isinstance e ''TrialPruned''"
    and "\<not> isinstance_any e catch"
  shows "run_trial func catch w = (Inl e, snd (create_new_trial_id w))"
  using assms by (simp add: run_trial_def create_new_trial_id_def Let_def)

lemma run_not_float:
  assumes "func (length (trials w)) = Returned v" and "float_conv v = Inl e"
    and "isinstance_any e [''ValueError'', ''TypeError'']"
  shows "run_trial func catch w = (Inr (length (trials w)), fail_world (msg_not_float v) w)"
  using assms
  by (simp add: run_trial_def storage_defs Let_def nth_append fail_world_def new_trial_def)

lemma run_conv_raises:
  assumes "func (length (trials w)) = Returned v" and "float_conv v = Inl e"
    and "\<not> isinstance_any e [''ValueError'', ''TypeError'']"
  shows "run_trial func catch w = (Inl e, snd (create_new_trial_id w))"
  using assms by (simp add: run_trial_def create_new_trial_id_def Let_def)

lemma run_nan:
  assumes "func (length (trials w)) = Returned v" and "float_conv v = Inr r" and "isnan r"
  shows "run_trial func catch w = (Inr (length (trials w)), fail_world msg_nan w)"
  using assms
  by (simp add: run_trial_def storage_defs Let_def nth_append fail_world_def new_trial_def)

lemma run_complete_trials:
  assumes "func (length (trials w)) = Returned v" and "float_conv v = Inr r" and "\<not> isnan r"
  shows "trials (snd (run_trial func catch w)) =
     trials w @ [(new_trial (length (trials w)))
       \<lparr>state := COMPLETE, value := Some r, last_report := Some r\<rparr>]"
proof -
  let ?i = "length (trials w)"
  let ?w2 = "set_trial_state ?i COMPLETE (report ?i r (snd (create_new_trial_id w)))"
  have "snd (run_trial func catch w) = snd (log_completed_trial r ?w2)"
    using assms
    by (simp add: run_trial_def create_new_trial_id_def Let_def split: prod.splits sum.splits)
  then have "trials (snd (run_trial func catch w)) = trials ?w2"
    by (simp add: trials_log_completed_trial)
  also have "\<dots> = trials w @ [(new_trial ?i)
      \<lparr>state := COMPLETE, value := Some r, last_report := Some r\<rparr>]"
    by (simp add: storage_defs Let_def nth_append new_trial_def)
  finally show ?thesis .
qed

lemma recorded_state_last:
  "trials w' = ts @ [t] \<Longrightarrow> recorded_state w' (length ts) = Some (state t)"
  by (simp add: recorded_state_def)

lemma recorded_value_last:
  "trials w' = ts @ [t] \<Longrightarrow> recorded_value w' (length ts) = value t"
  by (simp add: recorded_value_def)

lemma trials_fail_world:
  "trials (fail_world m w) = trials w @
     [(new_trial (length (trials w)))\<lparr>state := FAIL, system_attrs := [(''fail_reason'', m)]\<rparr>]"
  by (simp add: fail_world_def Let_def)

lemma trials_created:
  "trials (snd (create_new_trial_id w)) = trials w @ [new_trial (length (trials w))]"
  by (simp add: create_new_trial_id_def Let_def)

lemma recorded_state_fail_cases:
  assumes "recorded_state (snd (run_trial func catch w)) (length (trials w)) = Some FAIL"
  shows "\<exists>m. run_trial func catch w = (Inr (length (trials w)), fail_world m w)"
proof (cases "func (length (trials w))")
  case (Raised e)
  show ?thesis
  proof (cases "isinstance e ''TrialPruned''")
    case True
    with assms Raised show ?thesis
      by (simp add: run_pruned [of func w e catch] recorded_state_def)
  next
    case np: False
    show ?thesis
    proof (cases "isinstance_any e catch")
      case True
      with Raised np show ?thesis
        using run_caught [of func w e catch] by blast
    next
      case False
      with assms Raised np show ?thesis
        by (simp add: run_fatal [of func w e catch] recorded_state_last [OF trials_created]
            new_trial_def)
    qed
  qed
next
  case (Returned v)
  show ?thesis
  proof (cases "float_conv v")
    case (Inl e)
    show ?thesis
    proof (cases "isinstance_any e [''ValueError'', ''TypeError'']")
      case True
      with Returned Inl show ?thesis
        using run_not_float [of func w v e catch] by blast
    next
      case False
      with assms Returned Inl show ?thesis
        by (simp add: run_conv_raises [of func w v e catch]
            recorded_state_last [OF trials_created] new_trial_def)
    qed
  next
    case (Inr r)
    show ?thesis
    proof (cases "isnan r")
      case True
      with Returned Inr show ?thesis
        using run_nan [of func w v r catch] by blast
    next
      case False
      with assms Returned Inr show ?thesis
        using run_complete_trials [of func w v r catch]
        by (simp add: recorded_state_last)
    qed
  qed
qed

text \<open>
  C1, as amended. When the objective returns a value, the trial is recorded as
  \<open>COMPLETE\<close> if and only if the value converts to a float that is not NaN, an
  infinity included, and the stored value is then exactly the converted float. A value
  whose conversion raises \<open>ValueError\<close> or \<open>TypeError\<close>, or that converts to NaN, is
  recorded as \<open>FAIL\<close>.
\<close>

theorem returned_value_complete_iff_not_nan:
  assumes "func (length (trials w)) = Returned v"
  shows "(recorded_state (snd (run_trial func catch w)) (length (trials w)) = Some COMPLETE
            \<longleftrightarrow> (\<exists>r. float_conv v = Inr r \<and> \<not> isnan r))
    \<and> (\<forall>r. float_conv v = Inr r \<and> \<not> isnan r \<longrightarrow>
          recorded_value (snd (run_trial func catch w)) (length (trials w)) = Some r)
    \<and> (\<forall>r. float_conv v = Inr r \<and> isnan r \<longrightarrow>
          recorded_state (snd (run_trial func catch w)) (length (trials w)) = Some FAIL)
    \<and> (\<forall>e. float_conv v = Inl e \<and> isinstance_any e [''ValueError'', ''TypeError''] \<longrightarrow>
          recorded_state (snd (run_trial func catch w)) (length (trials w)) = Some FAIL)"
proof (cases "float_conv v")
  case (Inl e)
  show ?thesis
  proof (cases "isinstance_any e [''ValueError'', ''TypeError'']")
    case True
    then show ?thesis
      using assms Inl run_not_float [of func w v e catch]
      by (simp add: recorded_state_last [OF trials_fail_world])
  next
    case False
    then show ?thesis
      using assms Inl run_conv_raises [of func w v e catch]
      by (simp add: recorded_state_last [OF trials_created] new_trial_def)
  qed
next
  case (Inr r)
  show ?thesis
  proof (cases "isnan r")
    case True
    then show ?thesis
      using assms Inr run_nan [of func w v r catch]
      by (simp add: recorded_state_last [OF trials_fail_world])
  next
    case False
    then show ?thesis
      using assms Inr run_complete_trials [of func w v r catch]
      by (simp add: recorded_state_last recorded_value_last)
  qed
qed

theorem returned_value_complete_iff_not_nan_witness:
  "always (Returned (py_float (Finite (3 / 2)) ''1.5'')) (length (trials empty_world))
     = Returned (py_float (Finite (3 / 2)) ''1.5'')
   \<and> recorded_state
     (snd (run_trial (always (Returned (py_float (Finite (3 / 2)) ''1.5''))) [''Exception'']
        empty_world)) 0 = Some COMPLETE
   \<and> recorded_value
     (snd (run_trial (always (Returned (py_float (Finite (3 / 2)) ''1.5''))) [''Exception'']
        empty_world)) 0 = Some (Finite (3 / 2))
   \<and> recorded_state
     (snd (run_trial (always (Returned (py_float NaN ''nan''))) [''Exception''] empty_world)) 0
     = Some FAIL"
  using returned_value_complete_iff_not_nan
      [of "always (Returned (py_float (Finite (3 / 2)) ''1.5''))" empty_world
          "py_float (Finite (3 / 2)) ''1.5''" "[''Exception'']"]
    returned_value_complete_iff_not_nan
      [of "always (Returned (py_float NaN ''nan''))" empty_world "py_float NaN ''nan''"
          "[''Exception'']"]
  by (simp add: always_def empty_world_def py_float_def isnan_def)

text \<open>
  C1 as it is stated fails: an objective that returns positive infinity has its trial
  recorded as \<open>COMPLETE\<close> with the value infinity, which is not finite.
\<close>

theorem infinite_value_complete_counterexample:
  "recorded_state
     (snd (run_trial (always (Returned (py_float PosInf ''inf''))) [''Exception''] empty_world)) 0
     = Some COMPLETE
   \<and> recorded_value
     (snd (run_trial (always (Returned (py_float PosInf ''inf''))) [''Exception''] empty_world)) 0
     = Some PosInf
   \<and> float_conv (py_float PosInf ''inf'') = Inr PosInf
   \<and> \<not> isfinite PosInf"
  using run_complete_trials
      [of "always (Returned (py_float PosInf ''inf''))" empty_world "py_float PosInf ''inf''"
          PosInf "[''Exception'']"]
  by (simp add: always_def empty_world_def py_float_def isnan_def isfinite_def
      recorded_state_def recorded_value_def)

text \<open>
  C2, as amended. For every trial that the runner records as \<open>FAIL\<close>, the storage
  calls of the runner are, in this order, the allocation of the identifier, the
  transition to \<open>FAIL\<close> and the attribute \<open>fail_reason\<close>: the reason is recorded directly
  after the state transition is persisted, not before it, and it is stored on the
  trial.
\<close>

theorem fail_reason_follows_fail_state:
  assumes "recorded_state (snd (run_trial func catch w)) (length (trials w)) = Some FAIL"
  shows "\<exists>m. calls (snd (run_trial func catch w)) =
           calls w @ [CreateNewTrialId (length (trials w)),
                      SetTrialState (length (trials w)) FAIL,
                      SetTrialSystemAttr (length (trials w)) ''fail_reason'' m]
         \<and> map_of (system_attrs (trials (snd (run_trial func catch w)) ! length (trials w)))
              ''fail_reason'' = Some m"
proof -
  from recorded_state_fail_cases [OF assms]
  obtain m where "run_trial func catch w = (Inr (length (trials w)), fail_world m w)" ..
  then show ?thesis
    by (simp add: fail_world_def Let_def)
qed

theorem fail_reason_follows_fail_state_witness:
  "recorded_state
     (snd (run_trial (always (Returned (py_float NaN ''nan''))) [''Exception''] empty_world))
     (length (trials empty_world)) = Some FAIL
   \<and> calls (snd (run_trial (always (Returned (py_float NaN ''nan''))) [''Exception''] empty_world))
       = [CreateNewTrialId 0, SetTrialState 0 FAIL, SetTrialSystemAttr 0 ''fail_reason'' msg_nan]"
proof -
  have r: "run_trial (always (Returned (py_float NaN ''nan''))) [''Exception''] empty_world
      = (Inr (length (trials empty_world)), fail_world msg_nan empty_world)"
    using run_nan [of "always (Returned (py_float NaN ''nan''))" empty_world
        "py_float NaN ''nan''" NaN "[''Exception'']"]
    by (simp add: always_def py_float_def isnan_def)
  have f: "recorded_state
      (snd (run_trial (always (Returned (py_float NaN ''nan''))) [''Exception''] empty_world))
      (length (trials empty_world)) = Some FAIL"
    by (simp add: r recorded_state_last [OF trials_fail_world])
  from fail_reason_follows_fail_state [OF f] f show ?thesis
    unfolding r by (simp add: fail_world_def empty_world_def Let_def)
qed

text \<open>
  C2 as it is stated fails: when the objective returns NaN the trial is recorded as
  \<open>FAIL\<close>, and in the runner's storage calls the failure reason is set after the state
  was set to \<open>FAIL\<close>.
\<close>

theorem fail_reason_after_fail_state_counterexample:
  "recorded_state
     (snd (run_trial (always (Returned (py_float NaN ''nan''))) [''Exception''] empty_world)) 0
     = Some FAIL
   \<and> reason_after_fail 0
       (calls (snd (run_trial (always (Returned (py_float NaN ''nan''))) [''Exception'']
          empty_world)))"
  using run_nan [of "always (Returned (py_float NaN ''nan''))" empty_world "py_float NaN ''nan''"
      NaN "[''Exception'']"]
  by (simp add: always_def py_float_def isnan_def fail_world_def empty_world_def
      recorded_state_def is_fail_reason_def Let_def)

text \<open>
  C8, at the input where the code departs from it. The objective returns the integer
  \<open>10 ** 400\<close>. It raises nothing, yet \<open>run_trial\<close> does not return the handle: the
  \<open>OverflowError\<close> of the conversion to float is not among the guarded classes and
  leaves the runner, with the trial still \<open>RUNNING\<close> and no failure reason recorded.
\<close>

theorem float_overflow_leaves_run_trial:
  "run_trial (always (Returned huge_int)) [''Exception''] empty_world =
     (Inl overflow_error, \<lparr>trials = [new_trial 0], calls = [CreateNewTrialId 0], logs = []\<rparr>)"
  using run_conv_raises [of "always (Returned huge_int)" empty_world huge_int overflow_error
      "[''Exception'']"]
  by (simp add: always_def huge_int_def overflow_error_def isinstance_any_def isinstance_def
      create_new_trial_id_def empty_world_def Let_def)

text \<open>
  C10. An objective that raises the pruning signal has its trial recorded as
  \<open>PRUNED\<close>, whatever the catch filter: the runner returns the handle, and its storage
  calls are the allocation and the transition to \<open>PRUNED\<close>, with no transition to
  \<open>FAIL\<close> and no failure reason.
\<close>

theorem pruning_signal_precedes_catch_filter:
  assumes "func (length (trials w)) = Raised e" and "isinstance e ''TrialPruned''"
  shows "fst (run_trial func catch w) = Inr (length (trials w))
    \<and> recorded_state (snd (run_trial func catch w)) (length (trials w)) = Some PRUNED
    \<and> calls (snd (run_trial func catch w)) =
        calls w @ [CreateNewTrialId (length (trials w)), SetTrialState (length (trials w)) PRUNED]"
  using assms by (simp add: run_pruned [of func w e catch] recorded_state_def)

theorem pruning_signal_precedes_catch_filter_witness:
  "always (Raised pruned_signal) (length (trials empty_world)) = Raised pruned_signal
   \<and> isinstance pruned_signal ''TrialPruned''
   \<and> isinstance_any pruned_signal [''Exception'']
   \<and> fst (run_trial (always (Raised pruned_signal)) [''Exception''] empty_world) = Inr 0
   \<and> recorded_state (snd (run_trial (always (Raised pruned_signal)) [''Exception''] empty_world)) 0
       = Some PRUNED
   \<and> calls (snd (run_trial (always (Raised pruned_signal)) [''Exception''] empty_world)) =
        [CreateNewTrialId 0, SetTrialState 0 PRUNED]"
proof -
  have p: "isinstance pruned_signal ''TrialPruned''"
    by (simp add: isinstance_def pruned_signal_def)
  have c: "isinstance_any pruned_signal [''Exception'']"
    by (simp add: isinstance_any_def isinstance_def pruned_signal_def)
  have a: "always (Raised pruned_signal) (length (trials empty_world)) = Raised pruned_signal"
    by (simp add: always_def)
  show ?thesis
    using p c a pruning_signal_precedes_catch_filter
      [of "always (Raised pruned_signal)" empty_world pruned_signal "[''Exception'']"]
    by (simp add: empty_world_def)
qed

section \<open>Accessors and construction\<close>

text \<open>
  C5. In a study without a completed trial, the best-value, the best-params and the
  best-trial accessor each raise the error that no trials are completed; none of them
  returns a result.
\<close>

theorem best_accessors_raise_without_completed_trial:
  assumes "list_all (\<lambda>t. state t \<noteq> COMPLETE) (trials w)"
  shows "fst (best_value w) = Inl no_completed_trials
    \<and> fst (best_params w) = Inl no_completed_trials
    \<and> fst (best_trial w) = Inl no_completed_trials"
proof -
  from assms have "filter (\<lambda>t. state t = COMPLETE) (trials w) = []"
    by (simp add: filter_empty_conv list_all_iff)
  then have "fst (best_trial w) = Inl no_completed_trials"
    by (simp add: best_trial_def get_best_trial_def Let_def)
  then show ?thesis
    by (cases "best_trial w") (simp add: best_value_def best_params_def)
qed

theorem best_accessors_raise_without_completed_trial_witness:
  "list_all (\<lambda>t. state t \<noteq> COMPLETE) (trials (empty_world\<lparr>trials := [failed_trial]\<rparr>))
   \<and> fst (best_value (empty_world\<lparr>trials := [failed_trial]\<rparr>)) = Inl no_completed_trials
   \<and> fst (best_params (empty_world\<lparr>trials := [failed_trial]\<rparr>)) = Inl no_completed_trials
   \<and> fst (best_trial (empty_world\<lparr>trials := [failed_trial]\<rparr>)) = Inl no_completed_trials"
proof -
  have h: "list_all (\<lambda>t. state t \<noteq> COMPLETE) (trials (empty_world\<lparr>trials := [failed_trial]\<rparr>))"
    by (simp add: failed_trial_def new_trial_def)
  from best_accessors_raise_without_completed_trial [OF h] h show ?thesis
    by simp
qed

text \<open>
  C7. Construction succeeds only for the direction \<open>minimize\<close>. With the direction
  \<open>maximize\<close> it raises a \<open>ValueError\<close> naming the unsupported direction, and with any
  other string the \<open>ValueError\<close> asking for one of the two literals; in both cases no
  study is built and the direction is never written to the storage, so no trial can
  have run.
\<close>

theorem construction_rejects_direction:
  assumes "lookup name = Inr sid"
  shows "study_init lookup name ''maximize'' =
           (Inl (maximize_error name), [GetStudyIdFromName name])
    \<and> (dir \<noteq> ''minimize'' \<and> dir \<noteq> ''maximize'' \<longrightarrow>
          study_init lookup name dir = (Inl direction_error, [GetStudyIdFromName name]))
    \<and> ((\<exists>s. fst (study_init lookup name dir) = Inr s) \<longleftrightarrow> dir = ''minimize'')
    \<and> isinstance (maximize_error name) ''ValueError''
    \<and> isinstance direction_error ''ValueError''"
  using assms
  by (auto simp: study_init_def maximize_error_def direction_error_def ValueError_def
      isinstance_def)

theorem construction_rejects_direction_witness:
  "known_study ''s'' = Inr 0
   \<and> study_init known_study ''s'' ''maximize'' =
        (Inl (maximize_error ''s''), [GetStudyIdFromName ''s''])
   \<and> study_init known_study ''s'' ''max'' = (Inl direction_error, [GetStudyIdFromName ''s''])
   \<and> study_init known_study ''s'' ''minimize'' =
        (Inr \<lparr>study_name = ''s'', study_id = 0, direction = MINIMIZE\<rparr>,
         [GetStudyIdFromName ''s'', SetStudyTask 0 MINIMIZE])"
proof -
  have h: "known_study ''s'' = Inr 0"
    by (simp add: known_study_def)
  from construction_rejects_direction [of known_study "''s''" 0 "''max''"] h show ?thesis
    by (simp add: study_init_def)
qed

section \<open>Sequential scheduling\<close>

lemma length_trials_run_trial:
  "length (trials (snd (run_trial func catch w))) = Suc (length (trials w))"
proof (cases "func (length (trials w))")
  case (Raised e)
  show ?thesis
  proof (cases "isinstance e ''TrialPruned''")
    case True
    with Raised show ?thesis
      by (simp add: run_pruned [of func w e catch])
  next
    case np: False
    show ?thesis
    proof (cases "isinstance_any e catch")
      case True
      with Raised np show ?thesis
        by (simp add: run_caught [of func w e catch] trials_fail_world)
    next
      case False
      with Raised np show ?thesis
        by (simp add: run_fatal [of func w e catch] trials_created)
    qed
  qed
next
  case (Returned v)
  show ?thesis
  proof (cases "float_conv v")
    case (Inl e)
    show ?thesis
    proof (cases "isinstance_any e [''ValueError'', ''TypeError'']")
      case True
      with Returned Inl show ?thesis
        by (simp add: run_not_float [of func w v e catch] trials_fail_world)
    next
      case False
      with Returned Inl show ?thesis
        by (simp add: run_conv_raises [of func w v e catch] trials_created)
    qed
  next
    case (Inr r)
    show ?thesis
    proof (cases "isnan r")
      case True
      with Returned Inr show ?thesis
        by (simp add: run_nan [of func w v r catch] trials_fail_world)
    next
      case False
      with Returned Inr show ?thesis
        by (simp add: run_complete_trials [of func w v r catch])
    qed
  qed
qed

text \<open>
  With a limit and no timeout the loop ends after at most the remaining number of
  trials, and the clock is never read. It either returns, and then it has run all of
  them, or it passes on the exception with which a call of \<open>run_trial\<close> ended.
\<close>

lemma seq_loop_limit:
  assumes "i \<le> n"
  shows "\<exists>res w'. optimize_sequential_loop func (Some n) None catch now ts i k w
            = Some (res, k, w')
     \<and> (res = Inr () \<longrightarrow> length (trials w') = length (trials w) + nat (n - i))
     \<and> (\<forall>e. res = Inl e \<longrightarrow> (\<exists>w0. fst (run_trial func catch w0) = Inl e)
            \<and> length (trials w) < length (trials w')
            \<and> length (trials w') \<le> length (trials w) + nat (n - i))"
  using assms
proof (induction "nat (n - i)" arbitrary: i w)
  case 0
  then have "i = n" by simp
  then show ?case
    by (subst optimize_sequential_loop.simps) simp
next
  case (Suc m)
  then have lt: "i < n" and m: "m = nat (n - (i + 1))" and le: "i + 1 \<le> n"
    by linarith+
  obtain r w1 where rt: "run_trial func catch w = (r, w1)"
    by (cases "run_trial func catch w")
  have len: "length (trials w1) = Suc (length (trials w))"
    using length_trials_run_trial [of func catch w] rt by simp
  show ?case
  proof (cases r)
    case (Inl e)
    have "optimize_sequential_loop func (Some n) None catch now ts i k w = Some (Inl e, k, w1)"
      using lt rt Inl by (subst optimize_sequential_loop.simps) simp
    moreover have "fst (run_trial func catch w) = Inl e"
      using rt Inl by simp
    ultimately show ?thesis
      using len lt by auto
  next
    case (Inr t)
    have step: "optimize_sequential_loop func (Some n) None catch now ts i k w
        = optimize_sequential_loop func (Some n) None catch now ts (i + 1) k w1"
      using lt rt Inr by (subst optimize_sequential_loop.simps) simp
    from Suc.hyps(1) [OF m le, of w1]
    obtain res w' where
      run: "optimize_sequential_loop func (Some n) None catch now ts (i + 1) k w1
              = Some (res, k, w')"
      and ok: "res = Inr () \<longrightarrow> length (trials w') = length (trials w1) + nat (n - (i + 1))"
      and bad: "\<forall>e. res = Inl e \<longrightarrow> (\<exists>w0. fst (run_trial func catch w0) = Inl e)
            \<and> length (trials w1) < length (trials w')
            \<and> length (trials w') \<le> length (trials w1) + nat (n - (i + 1))"
      by blast
    have arith: "Suc (nat (n - (i + 1))) = nat (n - i)"
      using lt by linarith
    show ?thesis
      using run ok bad len arith unfolding step by auto
  qed
qed

lemma seq_loop_limit_reached:
  "n \<le> i \<Longrightarrow>
     optimize_sequential_loop func (Some n) timeout catch now ts i k w = Some (Inr (), k, w)"
  by (subst optimize_sequential_loop.simps) simp

lemma seq_loop_timeout_reached:
  "i < n \<Longrightarrow> t \<le> now k - ts \<Longrightarrow>
     optimize_sequential_loop func (Some n) (Some t) catch now ts i k w
       = Some (Inr (), Suc k, w)"
  by (subst optimize_sequential_loop.simps) simp

lemma seq_loop_timeout_only:
  "t \<le> now k - ts \<Longrightarrow>
     optimize_sequential_loop func None (Some t) catch now ts i k w = Some (Inr (), Suc k, w)"
  by (subst optimize_sequential_loop.simps) simp

text \<open>
  C4, as amended. With a limit \<open>N \<ge> 0\<close> and no timeout, sequential scheduling always
  ends. When it returns it has run exactly \<open>N\<close> trials (none for \<open>N = 0\<close>); otherwise
  it raises the exception with which a call of the trial runner ended, having started
  at least one and at most \<open>N\<close> trials. Before each trial the limit is checked first:
  once it is reached the loop returns without reading the clock, whatever the timeout;
  the timeout is checked second, and an elapsed time that has reached it stops the
  loop before the trial is run.
\<close>

theorem sequential_runs_limit_trials:
  assumes "0 \<le> N"
  shows "(\<exists>res w'. optimize_sequential func (Some N) None catch now k w = Some (res, Suc k, w')
       \<and> (res = Inr () \<longrightarrow> length (trials w') = length (trials w) + nat N)
       \<and> (\<forall>e. res = Inl e \<longrightarrow> (\<exists>w0. fst (run_trial func catch w0) = Inl e)
              \<and> length (trials w) < length (trials w')
              \<and> length (trials w') \<le> length (trials w) + nat N))
    \<and> (\<forall>n i timeout ts j u. n \<le> i \<longrightarrow>
          optimize_sequential_loop func (Some n) timeout catch now ts i j u = Some (Inr (), j, u))
    \<and> (\<forall>n i t ts j u. i < n \<and> t \<le> now j - ts \<longrightarrow>
          optimize_sequential_loop func (Some n) (Some t) catch now ts i j u
            = Some (Inr (), Suc j, u))"
proof -
  from seq_loop_limit [of 0 N func catch now "now k" "Suc k" w] assms
  have "\<exists>res w'. optimize_sequential func (Some N) None catch now k w = Some (res, Suc k, w')
       \<and> (res = Inr () \<longrightarrow> length (trials w') = length (trials w) + nat N)
       \<and> (\<forall>e. res = Inl e \<longrightarrow> (\<exists>w0. fst (run_trial func catch w0) = Inl e)
              \<and> length (trials w) < length (trials w')
              \<and> length (trials w') \<le> length (trials w) + nat N)"
    by (simp add: optimize_sequential_def)
  then show ?thesis
    using seq_loop_limit_reached seq_loop_timeout_reached by blast
qed

theorem sequential_runs_limit_trials_witness:
  "(0::int) \<le> 2
   \<and> fst (the (optimize_sequential (always (Raised pruned_signal)) (Some 2) None [''Exception'']
          ticking 0 empty_world)) = Inr ()
   \<and> length (trials (snd (snd (the (optimize_sequential (always (Raised pruned_signal)) (Some 2)
          None [''Exception''] ticking 0 empty_world))))) = 2
   \<and> optimize_sequential_loop (always (Raised pruned_signal)) (Some 2) (Some 0) [''Exception'']
        ticking 0 2 1 empty_world = Some (Inr (), 1, empty_world)
   \<and> optimize_sequential_loop (always (Raised pruned_signal)) (Some 2) (Some 1) [''Exception'']
        ticking 0 1 1 empty_world = Some (Inr (), 2, empty_world)"
proof -
  have h: "(0::int) \<le> 2" by simp
  have e: "fst (the (optimize_sequential (always (Raised pruned_signal)) (Some 2) None
      [''Exception''] ticking 0 empty_world)) = Inr ()"
    by (simp add: optimize_sequential_def optimize_sequential_loop.simps run_trial_def
        storage_defs always_def pruned_signal_def isinstance_def empty_world_def Let_def)
  from sequential_runs_limit_trials
    [OF h, of "always (Raised pruned_signal)" "[''Exception'']" ticking 0 empty_world]
  show ?thesis
    using e by (auto simp: ticking_def empty_world_def)
qed

text \<open>
  C4 as it is stated fails: with the limit 2, no timeout and an objective that raises
  \<open>KeyboardInterrupt\<close>, which the catch filter \<open>(Exception,)\<close> does not match,
  sequential scheduling starts one trial and raises; it does not run two trials.
\<close>

theorem sequential_fatal_stops_early_counterexample:
  "optimize_sequential (always (Raised keyboard_interrupt)) (Some 2) None [''Exception''] ticking 0
     empty_world
   = Some (Inl keyboard_interrupt, 1,
       \<lparr>trials = [new_trial 0], calls = [CreateNewTrialId 0], logs = []\<rparr>)"
  by (simp add: optimize_sequential_def optimize_sequential_loop.simps run_trial_def
      create_new_trial_id_def always_def keyboard_interrupt_def isinstance_def
      isinstance_any_def empty_world_def Let_def)

section \<open>Parallel scheduling\<close>






































text \<open>
  The drain can raise before the last trial is run. With the limit 3 on two workers
  and the catch filter \<open>(ValueError,)\<close>, the first worker dies of a \<open>KeyError\<close> in its
  first trial; the second worker runs one trial and takes the last \<open>True\<close> token; the
  coordinator puts both stop tokens and the drain raises the \<open>KeyError\<close> while the
  second worker has yet to run its trial: two trials have been run and one is about
  to be.
\<close>

lemma drain_raises_before_last_trial:
  "early_raise_run \<noteq> None
   \<and> coord (the early_raise_run) = Done (Inl key_error)
   \<and> workers (the early_raise_run) = [Died key_error, Running]
   \<and> length (trials (pworld (the early_raise_run))) = 2
   \<and> in_trial (workers (the early_raise_run)) = 1"
  by code_simp

text \<open>
  C6. The worker count \<open>-1\<close> resolves to the count of processing units; with a limit
  on the trials the worker count is the smaller of the resolved count and the limit,
  and the pool, the queue and the seed tokens have that size; with the limit zero the
  method returns at once, under every schedule, and leaves the world as it was, so no
  trial is run.
\<close>

theorem parallel_worker_count:
  "(1 \<le> cpu_count \<longrightarrow>
      (\<exists>s. optimize_parallel_start cpu_count None (- 1) now k w = Started s
         \<and> n_jobs s = cpu_count \<and> length (workers s) = nat cpu_count
         \<and> que s = replicate (nat cpu_count) True))
   \<and> (1 \<le> cpu_count \<and> 1 \<le> n \<longrightarrow>
      (\<exists>s. optimize_parallel_start cpu_count (Some n) (- 1) now k w = Started s
         \<and> n_jobs s = min cpu_count n))
   \<and> (1 \<le> njobs \<and> 1 \<le> n \<longrightarrow>
      (\<exists>s. optimize_parallel_start cpu_count (Some n) njobs now k w = Started s
         \<and> n_jobs s = min njobs n \<and> n_jobs s \<le> n \<and> (n < njobs \<longrightarrow> n_jobs s = n)
         \<and> length (workers s) = nat (min njobs n)
         \<and> que s = replicate (nat (min njobs n)) True
         \<and> n_enqueued_trials s = min njobs n))
   \<and> optimize_parallel_start cpu_count (Some 0) njobs now k w = NoWork
   \<and> optimize_parallel cpu_count func (Some 0) timeout njobs catch now k sched w
        = Some (Inr (), w)
   \<and> (njobs \<noteq> 1 \<longrightarrow>
        optimize cpu_count func (Some 0) timeout njobs catch now k sched w = Some (Inr (), w))"
  by (auto simp: optimize_parallel_start_def optimize_parallel_def optimize_def Let_def)

theorem parallel_worker_count_witness:
  "(1::int) \<le> 8 \<and> (1::int) \<le> 3
   \<and> optimize_parallel_start 8 (Some 3) (- 1) ticking 0 empty_world =
        Started \<lparr>n_jobs = 3, que = [True, True, True], n_enqueued_trials = 3, coord = Admitting,
          workers = [Waiting, Waiting, Waiting], start_datetime = 0, clock_reads = 1,
          sleeps = 0, pworld = empty_world\<rparr>
   \<and> optimize_parallel_start 8 None (- 1) ticking 0 empty_world =
        Started \<lparr>n_jobs = 8, que = replicate 8 True, n_enqueued_trials = 8, coord = Admitting,
          workers = replicate 8 Waiting, start_datetime = 0, clock_reads = 1,
          sleeps = 0, pworld = empty_world\<rparr>
   \<and> optimize 8 (always (Raised pruned_signal)) (Some 0) None 4 [''Exception''] ticking 0
        [Coord] empty_world = Some (Inr (), empty_world)"
  using parallel_worker_count
    [of 8 ticking 0 empty_world 3 4 "always (Raised pruned_signal)" None "[''Exception'']"
      "[Coord]"]
  by (simp add: optimize_parallel_start_def ticking_def numeral_eq_Suc)

section \<open>Tabular export\<close>

text \<open>The inner loop over the items of a dictionary field.\<close>

lemma add_inner_Cons:
  "foldl (add_inner f) (r, agg) ((i, x) # d) =
     foldl (add_inner f) (r((f, i) \<mapsto> x), agg(f := insert (f, i) (agg f))) d"
  by (simp add: add_inner_def)

lemma snd_add_inner_fold:
  "snd (foldl (add_inner f) (r, agg) d) = agg(f := agg f \<union> Pair f ` fst ` set d)"
proof (induction d arbitrary: r agg)
  case Nil
  show ?case by simp
next
  case (Cons kv d)
  obtain i x where kv: "kv = (i, x)" by (cases kv)
  have "(agg(f := insert (f, i) (agg f)))
        (f := (agg(f := insert (f, i) (agg f))) f \<union> Pair f ` fst ` set d)
      = agg(f := agg f \<union> Pair f ` fst ` set ((i, x) # d))"
    by (rule ext) auto
  then show ?case
    unfolding kv add_inner_Cons Cons.IH .
qed

lemma dom_add_inner_fold:
  "dom (fst (foldl (add_inner f) (r, agg) d)) = dom r \<union> Pair f ` fst ` set d"
proof (induction d arbitrary: r agg)
  case Nil
  show ?case by simp
next
  case (Cons kv d)
  obtain i x where kv: "kv = (i, x)" by (cases kv)
  have "dom (r((f, i) \<mapsto> x)) \<union> Pair f ` fst ` set d
      = dom r \<union> Pair f ` fst ` set ((i, x) # d)"
    by auto
  then show ?case
    unfolding kv add_inner_Cons Cons.IH .
qed

lemma keep_add_inner_fold:
  "c \<notin> Pair f ` fst ` set d \<Longrightarrow> fst (foldl (add_inner f) (r, agg) d) c = r c"
proof (induction d arbitrary: r agg)
  case Nil
  show ?case by simp
next
  case (Cons kv d)
  obtain i x where kv: "kv = (i, x)" by (cases kv)
  from Cons.prems have c: "c \<notin> Pair f ` fst ` set d" and ne: "c \<noteq> (f, i)"
    by (auto simp: kv)
  have "fst (foldl (add_inner f) (r, agg) (kv # d)) c = (r((f, i) \<mapsto> x)) c"
    unfolding kv add_inner_Cons by (rule Cons.IH [OF c])
  with ne show ?case by simp
qed

lemma value_add_inner_fold:
  assumes "distinct (map fst d)" and "(i, x) \<in> set d"
  shows "fst (foldl (add_inner f) (r, agg) d) (f, i) = Some x"
  using assms
proof (induction d arbitrary: r agg)
  case Nil
  then show ?case by simp
next
  case (Cons kv d)
  obtain j y where kv: "kv = (j, y)" by (cases kv)
  show ?case
  proof (cases "(i, x) \<in> set d")
    case True
    with Cons.prems have "distinct (map fst d)" by simp
    from Cons.IH [OF this True] show ?thesis
      unfolding kv add_inner_Cons .
  next
    case False
    with Cons.prems kv have eq: "j = i" "y = x" and notin: "(f, i) \<notin> Pair f ` fst ` set d"
      by (auto simp: image_iff)
    have "fst (foldl (add_inner f) (r, agg) (kv # d)) (f, i) = (r((f, i) \<mapsto> x)) (f, i)"
      unfolding kv eq add_inner_Cons by (rule keep_add_inner_fold [OF notin])
    then show ?thesis by simp
  qed
qed

text \<open>One field of a trial.\<close>

lemma snd_add_field:
  "snd (add_field internal (r, agg) fv) =
     (\<lambda>k. agg k \<union> Set.filter (\<lambda>c. fst c = k) (field_columns internal fv))"
proof -
  obtain f v where fv: "fv = (f, v)" by (cases fv)
  show ?thesis
  proof (cases "f \<in> set internal")
    case True
    then show ?thesis
      by (simp add: fv add_field_def field_columns_def)
  next
    case False
    show ?thesis
    proof (cases v)
      case (Scalar x)
      with False show ?thesis
        by (auto simp: fv add_field_def field_columns_def fun_eq_iff)
    next
      case (Dict d)
      have "agg(f := agg f \<union> Pair f ` fst ` set d)
          = (\<lambda>k. agg k \<union> Set.filter (\<lambda>c. fst c = k) (Pair f ` fst ` set d))"
        by (rule ext) auto
      with False Dict show ?thesis
        by (simp add: fv add_field_def field_columns_def snd_add_inner_fold)
    qed
  qed
qed

lemma dom_add_field:
  "dom (fst (add_field internal (r, agg) fv)) = dom r \<union> field_columns internal fv"
proof -
  obtain f v where fv: "fv = (f, v)" by (cases fv)
  show ?thesis
  proof (cases "f \<in> set internal")
    case True
    then show ?thesis
      by (simp add: fv add_field_def field_columns_def)
  next
    case False
    then show ?thesis
      by (cases v) (simp_all add: fv add_field_def field_columns_def dom_add_inner_fold)
  qed
qed

lemma keep_add_field:
  assumes "c \<notin> field_columns internal fv"
  shows "fst (add_field internal (r, agg) fv) c = r c"
proof -
  obtain f v where fv: "fv = (f, v)" by (cases fv)
  show ?thesis
  proof (cases "f \<in> set internal")
    case True
    then show ?thesis
      by (simp add: fv add_field_def)
  next
    case False
    with assms show ?thesis
      by (cases v) (auto simp: fv add_field_def field_columns_def keep_add_inner_fold)
  qed
qed

text \<open>The loop over the fields of one trial.\<close>

lemma add_field_Cons:
  "foldl (add_field internal) (r, agg) (fv # t) =
     foldl (add_field internal)
       (fst (add_field internal (r, agg) fv), snd (add_field internal (r, agg) fv)) t"
  by simp

lemma snd_add_field_fold:
  "snd (foldl (add_field internal) (r, agg) t) =
     (\<lambda>k. agg k \<union> Set.filter (\<lambda>c. fst c = k) (trial_columns internal t))"
proof (induction t arbitrary: r agg)
  case Nil
  show ?case by (simp add: trial_columns_def)
next
  case (Cons fv t)
  have "(\<lambda>k. (agg k \<union> Set.filter (\<lambda>c. fst c = k) (field_columns internal fv))
          \<union> Set.filter (\<lambda>c. fst c = k) (trial_columns internal t))
      = (\<lambda>k. agg k \<union> Set.filter (\<lambda>c. fst c = k) (trial_columns internal (fv # t)))"
    by (rule ext) (auto simp: trial_columns_def)
  then show ?case
    unfolding add_field_Cons Cons.IH snd_add_field .
qed

lemma dom_add_field_fold:
  "dom (fst (foldl (add_field internal) (r, agg) t)) = dom r \<union> trial_columns internal t"
proof (induction t arbitrary: r agg)
  case Nil
  show ?case by (simp add: trial_columns_def)
next
  case (Cons fv t)
  have "(dom r \<union> field_columns internal fv) \<union> trial_columns internal t
      = dom r \<union> trial_columns internal (fv # t)"
    by (auto simp: trial_columns_def)
  then show ?case
    unfolding add_field_Cons Cons.IH dom_add_field .
qed

lemma keep_add_field_fold:
  "c \<notin> trial_columns internal t \<Longrightarrow> fst (foldl (add_field internal) (r, agg) t) c = r c"
proof (induction t arbitrary: r agg)
  case Nil
  show ?case by simp
next
  case (Cons fv t)
  from Cons.prems have c: "c \<notin> trial_columns internal t" and c1: "c \<notin> field_columns internal fv"
    by (auto simp: trial_columns_def)
  show ?case
    unfolding add_field_Cons Cons.IH [OF c] by (rule keep_add_field [OF c1])
qed

lemma fst_trial_columns:
  "c \<in> trial_columns internal t \<Longrightarrow> fst c \<in> fst ` set t"
  by (force simp: trial_columns_def field_columns_def split: if_splits)

lemma scalar_add_field_fold:
  assumes "distinct (map fst t)" and "(f, Scalar x) \<in> set t" and "f \<notin> set internal"
  shows "fst (foldl (add_field internal) (r, agg) t) (f, non_nested_field) = Some x"
  using assms(1,2)
proof (induction t arbitrary: r agg)
  case Nil
  then show ?case by simp
next
  case (Cons fv t)
  show ?case
  proof (cases "(f, Scalar x) \<in> set t")
    case True
    with Cons.prems have "distinct (map fst t)" by simp
    from Cons.IH [OF this True] show ?thesis
      unfolding add_field_Cons .
  next
    case False
    with Cons.prems have fv: "fv = (f, Scalar x)" and notin: "f \<notin> fst ` set t"
      by (auto simp: image_iff)
    from notin have "(f, non_nested_field) \<notin> trial_columns internal t"
      using fst_trial_columns [of "(f, non_nested_field)" internal t] by auto
    from keep_add_field_fold [OF this]
    have "fst (foldl (add_field internal) (r, agg) (fv # t)) (f, non_nested_field)
        = fst (add_field internal (r, agg) fv) (f, non_nested_field)"
      unfolding add_field_Cons .
    moreover have "fst (add_field internal (r, agg) fv) (f, non_nested_field) = Some x"
      using assms(3) by (simp add: fv add_field_def)
    ultimately show ?thesis
      by simp
  qed
qed

lemma dict_add_field_fold:
  assumes "distinct (map fst t)" and "(f, Dict d) \<in> set t" and "f \<notin> set internal"
    and "distinct (map fst d)" and "(i, x) \<in> set d"
  shows "fst (foldl (add_field internal) (r, agg) t) (f, i) = Some x"
  using assms(1,2)
proof (induction t arbitrary: r agg)
  case Nil
  then show ?case by simp
next
  case (Cons fv t)
  show ?case
  proof (cases "(f, Dict d) \<in> set t")
    case True
    with Cons.prems have "distinct (map fst t)" by simp
    from Cons.IH [OF this True] show ?thesis
      unfolding add_field_Cons .
  next
    case False
    with Cons.prems have fv: "fv = (f, Dict d)" and notin: "f \<notin> fst ` set t"
      by (auto simp: image_iff)
    from notin have "(f, i) \<notin> trial_columns internal t"
      using fst_trial_columns [of "(f, i)" internal t] by auto
    from keep_add_field_fold [OF this]
    have "fst (foldl (add_field internal) (r, agg) (fv # t)) (f, i)
        = fst (add_field internal (r, agg) fv) (f, i)"
      unfolding add_field_Cons .
    moreover have "fst (add_field internal (r, agg) fv) (f, i) = Some x"
      using assms(3) value_add_inner_fold [OF assms(4,5), of f r agg]
      by (simp add: fv add_field_def)
    ultimately show ?thesis
      by simp
  qed
qed

text \<open>The record of a trial does not depend on the columns collected before it.\<close>

lemma fst_add_inner_fold_agg:
  "fst (foldl (add_inner f) (r, agg) d) = fst (foldl (add_inner f) (r, agg') d)"
proof (induction d arbitrary: r agg agg')
  case Nil
  show ?case by simp
next
  case (Cons kv d)
  obtain i x where kv: "kv = (i, x)" by (cases kv)
  show ?case
    unfolding kv add_inner_Cons by (rule Cons.IH)
qed

lemma fst_add_field_agg:
  "fst (add_field internal (r, agg) fv) = fst (add_field internal (r, agg') fv)"
proof -
  obtain f v where fv: "fv = (f, v)" by (cases fv)
  show ?thesis
    using fst_add_inner_fold_agg [of f r agg _ agg']
    by (cases v) (simp_all add: fv add_field_def)
qed

lemma fst_add_field_fold_agg:
  "fst (foldl (add_field internal) (r, agg) t) = fst (foldl (add_field internal) (r, agg') t)"
proof (induction t arbitrary: r agg agg')
  case Nil
  show ?case by simp
next
  case (Cons fv t)
  have "fst (foldl (add_field internal) (r, agg) (fv # t))
      = fst (foldl (add_field internal)
          (fst (add_field internal (r, agg) fv), snd (add_field internal (r, agg') fv)) t)"
    unfolding add_field_Cons by (rule Cons.IH)
  also have "\<dots> = fst (foldl (add_field internal) (r, agg') (fv # t))"
    unfolding add_field_Cons fst_add_field_agg [of internal r agg fv agg'] ..
  finally show ?case .
qed

text \<open>The loop over the trials.\<close>

lemma add_trial_Cons:
  "foldl (add_trial internal) (rs, agg) (t # ts) =
     foldl (add_trial internal)
       (rs @ [fst (foldl (add_field internal) (Map.empty, agg) t)],
        snd (foldl (add_field internal) (Map.empty, agg) t)) ts"
  by (simp add: add_trial_def split: prod.splits)

lemma fst_add_trial_fold:
  "fst (foldl (add_trial internal) (rs, agg) ts) =
     rs @ map (\<lambda>t. fst (foldl (add_field internal) (Map.empty, \<lambda>k. {}) t)) ts"
proof (induction ts arbitrary: rs agg)
  case Nil
  show ?case by simp
next
  case (Cons t ts)
  show ?case
    unfolding add_trial_Cons Cons.IH
    using fst_add_field_fold_agg [of internal Map.empty agg t "\<lambda>k. {}"] by simp
qed

lemma snd_add_trial_fold:
  "snd (foldl (add_trial internal) (rs, agg) ts) =
     (\<lambda>k. agg k \<union> group_columns internal ts k)"
proof (induction ts arbitrary: rs agg)
  case Nil
  show ?case by (simp add: group_columns_def)
next
  case (Cons t ts)
  have "(\<lambda>k. (agg k \<union> Set.filter (\<lambda>c. fst c = k) (trial_columns internal t))
          \<union> group_columns internal ts k)
      = (\<lambda>k. agg k \<union> group_columns internal (t # ts) k)"
    by (rule ext) (auto simp: group_columns_def)
  then show ?case
    unfolding add_trial_Cons Cons.IH snd_add_field_fold .
qed

lemma finite_trial_columns: "finite (trial_columns internal t)"
proof -
  have "finite (inner_keys v)" for v :: "'a field_value"
    by (cases v) simp_all
  then show ?thesis
    by (simp add: trial_columns_def field_columns_def)
qed

lemma finite_group_columns: "finite (group_columns internal ts k)"
  by (simp add: group_columns_def finite_trial_columns)

text \<open>
  C9. The export makes one record, hence one row, for each trial. The cells of a
  record are keyed by the columns of its trial: (outer field name, inner key) for
  every key of a field that is a dictionary, (field name, empty inner key) for every
  other field, and nothing for an internal field; each cell holds the value found in
  the trial. The columns are the groups of the outer field names, taken in the order
  in which the fields of the trial record are declared; the group of a field holds
  exactly the columns that some trial has under that field, each once, in ascending
  order.
\<close>

theorem trials_dataframe_flattens:
  assumes "trials_dataframe field_names internal ts = (records, columns)"
  shows "length records = length ts
    \<and> (\<forall>n < length ts. dom (records ! n) = trial_columns internal (ts ! n))
    \<and> (\<forall>n < length ts. \<forall>f x. distinct (map fst (ts ! n)) \<and> (f, Scalar x) \<in> set (ts ! n)
          \<and> f \<notin> set internal \<longrightarrow> (records ! n) (f, non_nested_field) = Some x)
    \<and> (\<forall>n < length ts. \<forall>f d i x. distinct (map fst (ts ! n)) \<and> (f, Dict d) \<in> set (ts ! n)
          \<and> f \<notin> set internal \<and> distinct (map fst d) \<and> (i, x) \<in> set d \<longrightarrow>
          (records ! n) (f, i) = Some x)
    \<and> columns = concat (map (\<lambda>k. sorted_list_of_set (group_columns internal ts k)) field_names)
    \<and> (\<forall>k. sorted (sorted_list_of_set (group_columns internal ts k))
          \<and> distinct (sorted_list_of_set (group_columns internal ts k))
          \<and> set (sorted_list_of_set (group_columns internal ts k)) = group_columns internal ts k)
    \<and> (\<forall>k. \<forall>c \<in> group_columns internal ts k. fst c = k \<and> k \<notin> set internal
          \<and> (\<exists>t \<in> set ts. c \<in> trial_columns internal t))"
proof -
  let ?rec = "\<lambda>t. fst (foldl (add_field internal) (Map.empty, \<lambda>k. {}) t)"
  obtain rs agg where fold: "foldl (add_trial internal) ([], \<lambda>k. {}) ts = (rs, agg)"
    by (cases "foldl (add_trial internal) ([], \<lambda>k. {}) ts")
  from fst_add_trial_fold [of internal "[]" "\<lambda>k. {}" ts] fold
  have rs: "rs = map ?rec ts" by simp
  from snd_add_trial_fold [of internal "[]" "\<lambda>k. {}" ts] fold
  have agg: "agg = group_columns internal ts" by simp
  from assms fold have records: "records = map ?rec ts"
    and columns: "columns = concat (map (\<lambda>k. sorted_list_of_set (group_columns internal ts k))
      field_names)"
    by (simp_all add: trials_dataframe_def rs agg)
  have len: "length records = length ts"
    by (simp add: records)
  have doms: "\<forall>n < length ts. dom (records ! n) = trial_columns internal (ts ! n)"
    by (simp add: records dom_add_field_fold)
  have scalars: "\<forall>n < length ts. \<forall>f x. distinct (map fst (ts ! n))
      \<and> (f, Scalar x) \<in> set (ts ! n) \<and> f \<notin> set internal \<longrightarrow>
      (records ! n) (f, non_nested_field) = Some x"
    by (simp add: records scalar_add_field_fold)
  have dicts: "\<forall>n < length ts. \<forall>f d i x. distinct (map fst (ts ! n))
      \<and> (f, Dict d) \<in> set (ts ! n) \<and> f \<notin> set internal \<and> distinct (map fst d)
      \<and> (i, x) \<in> set d \<longrightarrow> (records ! n) (f, i) = Some x"
  proof (intro allI impI)
    fix n f d i x
    assume n: "n < length ts"
      and h: "distinct (map fst (ts ! n)) \<and> (f, Dict d) \<in> set (ts ! n) \<and> f \<notin> set internal
        \<and> distinct (map fst d) \<and> (i, x) \<in> set d"
    then show "(records ! n) (f, i) = Some x"
      using dict_add_field_fold [of "ts ! n" f d internal i x Map.empty "\<lambda>k. {}"]
      by (simp add: records)
  qed
  have sorted: "\<forall>k. sorted (sorted_list_of_set (group_columns internal ts k))
      \<and> distinct (sorted_list_of_set (group_columns internal ts k))
      \<and> set (sorted_list_of_set (group_columns internal ts k)) = group_columns internal ts k"
    by (simp add: finite_group_columns)
  have groups: "\<forall>k. \<forall>c \<in> group_columns internal ts k. fst c = k \<and> k \<notin> set internal
      \<and> (\<exists>t \<in> set ts. c \<in> trial_columns internal t)"
    by (auto simp: group_columns_def trial_columns_def field_columns_def split: if_splits)
  from len doms scalars dicts columns sorted groups show ?thesis
    by blast
qed

theorem trials_dataframe_flattens_witness:
  "length (fst (trials_dataframe sample_fields [''params_in_internal_repr''] [sample_trial]))
       = 1
   \<and> snd (trials_dataframe sample_fields [''params_in_internal_repr''] [sample_trial]) =
       [(''trial_id'', StrKey ''''), (''state'', StrKey ''''), (''value'', StrKey ''''),
        (''params'', StrKey ''x''), (''params'', StrKey ''y''),
        (''intermediate_values'', IntKey 9), (''intermediate_values'', IntKey 10)]
   \<and> (fst (trials_dataframe sample_fields [''params_in_internal_repr''] [sample_trial]) ! 0)
        (''params'', StrKey ''x'') = Some ''1''
   \<and> (fst (trials_dataframe sample_fields [''params_in_internal_repr''] [sample_trial]) ! 0)
        (''trial_id'', non_nested_field) = Some ''0''
   \<and> (fst (trials_dataframe sample_fields [''params_in_internal_repr''] [sample_trial]) ! 0)
        (''params_in_internal_repr'', StrKey ''x'') = None"
proof -
  let ?df = "trials_dataframe sample_fields [''params_in_internal_repr''] [sample_trial]"
  have h: "?df = (fst ?df, snd ?df)"
    by simp
  have cols: "snd ?df =
       [(''trial_id'', StrKey ''''), (''state'', StrKey ''''), (''value'', StrKey ''''),
        (''params'', StrKey ''x''), (''params'', StrKey ''y''),
        (''intermediate_values'', IntKey 9), (''intermediate_values'', IntKey 10)]"
    by code_simp
  have c1: "(fst ?df ! 0) (''params'', StrKey ''x'') = Some ''1''"
    by code_simp
  have c2: "(fst ?df ! 0) (''trial_id'', non_nested_field) = Some ''0''"
    by code_simp
  have c3: "(fst ?df ! 0) (''params_in_internal_repr'', StrKey ''x'') = None"
    by code_simp
  from trials_dataframe_flattens [OF h] have "length (fst ?df) = length [sample_trial]"
    by blast
  with cols c1 c2 c3 show ?thesis
    by simp
qed

end
